theory Spec2Isabelle
  imports Main "HOL-Library.Word"
begin

section \<open>The ICMP ping transmitter of Pingnoo\<close>

text \<open>
  This theory embeds \<^verbatim>\<open>src/components/ICMPPingEngine/ICMPPingTransmitter.cpp\<close>:
  the constructor, \<^verbatim>\<open>doWork\<close>, \<^verbatim>\<open>setInterval\<close>, \<^verbatim>\<open>addTarget\<close> and
  \<^verbatim>\<open>interval\<close>. The transmitter's fields are a record; the calls it makes on its
  collaborators (the engine, the socket, the ping item, the logger, \<^verbatim>\<open>QThread\<close> and
  the two mutexes) are appended, in program order, to a list of calls kept in the state.
  Whatever the code reads from outside (the clock, what \<^verbatim>\<open>sendto\<close> returned, what the
  elapsed timer measured, what other threads did between two rounds, what other
  transmitters took from the static sequence counter) is an input of the model.
\<close>

subsection \<open>Machine types\<close>

type_synonym uint16_t = "16 word"
type_synonym cint = "32 word"     \<comment> \<open>C++ \<^verbatim>\<open>int\<close>, read with \<^const>\<open>sint\<close>\<close>
type_synonym qint64 = "64 word"   \<comment> \<open>Qt's \<^verbatim>\<open>qint64\<close>, read with \<^const>\<open>sint\<close>\<close>
type_synonym QDateTime = int      \<comment> \<open>a point in time, in milliseconds\<close>
type_synonym QHostAddress = string
type_synonym QByteArray = "8 word list"

text \<open>
  \<^verbatim>\<open>unsigned long\<close> is the type of \<^verbatim>\<open>sampleNumber\<close> and of the argument of
  \<^verbatim>\<open>QThread::msleep\<close>. It is taken at 64 bits, its width on the LP64 platforms
  (Linux, macOS) where this raw-socket engine runs.
\<close>

type_synonym ulong = "64 word"

subsection \<open>Collaborators\<close>

datatype IPVersion = V4 | V6

text \<open>
  Modelled from the spec: \<^verbatim>\<open>ICMPPingTarget.h\<close> is not among the sources. The spec
  gives a target as \<^verbatim>\<open>{ hostAddress, timeToLive, identifier }\<close>; the transmitter reads
  \<^verbatim>\<open>id()\<close> and \<^verbatim>\<open>hostAddress()\<close> (and \<^verbatim>\<open>socket()\<close>, whose \<^verbatim>\<open>sendto\<close> is an input of
  the model).
\<close>

record ICMPPingTarget =
  target_id :: uint16_t
  hostAddress :: QHostAddress
  ttl :: int

text \<open>
  The ping item as the transmitter fills it: \<^verbatim>\<open>setTarget\<close>, \<^verbatim>\<open>setId\<close>,
  \<^verbatim>\<open>setSequenceId\<close>, \<^verbatim>\<open>setSampleNumber\<close>.
\<close>

record ICMPPingItem =
  item_target :: ICMPPingTarget
  item_id :: uint16_t
  item_sequenceId :: uint16_t
  item_sampleNumber :: ulong

text \<open>
  Modelled from the spec: \<^verbatim>\<open>ICMPPingEngine.h\<close> is not among the sources. Of the
  engine, the transmitter uses \<^verbatim>\<open>setEpoch\<close>, \<^verbatim>\<open>version\<close> and \<^verbatim>\<open>addRequest\<close>; the
  spec describes \<^verbatim>\<open>epoch()\<close> as the measurement start time, so \<open>setEpoch\<close> stores
  the value that \<open>epoch\<close> returns.
\<close>

record ICMPPingEngine =
  m_epoch :: QDateTime
  m_version :: IPVersion

definition setEpoch :: "QDateTime \<Rightarrow> ICMPPingEngine \<Rightarrow> ICMPPingEngine" where
  "setEpoch t engine = engine\<lparr>m_epoch := t\<rparr>"

definition epoch :: "ICMPPingEngine \<Rightarrow> QDateTime" where
  "epoch engine = m_epoch engine"

definition version :: "ICMPPingEngine \<Rightarrow> IPVersion" where
  "version engine = m_version engine"

text \<open>
  \<^verbatim>\<open>ICMPPacket::pingPacket(id, sequence, payloadLength, hostAddress, ipVersion)\<close> is not
  among the sources either; it is a parameter of the model, of this type.
\<close>

type_synonym pingPacket_fn =
  "uint16_t \<Rightarrow> uint16_t \<Rightarrow> nat \<Rightarrow> QHostAddress \<Rightarrow> IPVersion \<Rightarrow> QByteArray"

subsection \<open>Calls on the collaborators\<close>

datatype call =
    SetEpoch QDateTime                      \<comment> \<open>\<^verbatim>\<open>m_engine->setEpoch(...)\<close>\<close>
  | TimerRestart                            \<comment> \<open>\<^verbatim>\<open>elapsedTimer.restart()\<close>\<close>
  | TargetsLock                             \<comment> \<open>\<^verbatim>\<open>m_targetsMutex.lock()\<close>\<close>
  | TargetsUnlock                           \<comment> \<open>\<^verbatim>\<open>m_targetsMutex.unlock()\<close>\<close>
  | SequenceLock                            \<comment> \<open>\<^verbatim>\<open>m_sequenceMutex.lock()\<close>\<close>
  | SequenceUnlock                          \<comment> \<open>\<^verbatim>\<open>m_sequenceMutex.unlock()\<close>\<close>
  | AddRequest ICMPPingItem                 \<comment> \<open>\<^verbatim>\<open>m_engine->addRequest(pingItem)\<close>\<close>
  | PingPacket uint16_t uint16_t nat QHostAddress IPVersion
                                            \<comment> \<open>\<^verbatim>\<open>ICMPPacket::pingPacket(...)\<close>\<close>
  | Sendto QByteArray QHostAddress          \<comment> \<open>\<^verbatim>\<open>socket->sendto(buffer, hostAddress)\<close>\<close>
  | StartTimer ICMPPingItem                 \<comment> \<open>\<^verbatim>\<open>pingItem->startTimer()\<close>\<close>
  | LogError QHostAddress                   \<comment> \<open>\<^verbatim>\<open>SPDLOG_ERROR("Unable to send packet to " + ...)\<close>\<close>
  | MSleep ulong                            \<comment> \<open>\<^verbatim>\<open>QThread::msleep(...)\<close>\<close>
  | TimerElapsed qint64                     \<comment> \<open>\<^verbatim>\<open>elapsedTimer.elapsed()\<close> and what it returned\<close>
  | OtherAllocations nat                    \<comment> \<open>other transmitters took this many sequence numbers\<close>

text \<open>
  The last entry is not a call of this transmitter. \<^verbatim>\<open>m_sequenceId\<close> is static (line
  40), so every transmitter of the process allocates from it; \<open>OtherAllocations k\<close>
  records, at its place in the order of the calls, that other transmitters made \<open>k\<close>
  allocations.
\<close>

subsection \<open>The transmitter\<close>

text \<open>
  The fields of the class, its static member \<^verbatim>\<open>m_sequenceId\<close>, and the calls made so
  far.
\<close>

record state =
  m_interval :: cint
  m_engine :: ICMPPingEngine
  m_isRunning :: bool
  m_targets :: "ICMPPingTarget list"
  m_sequenceId :: uint16_t
  calls :: "call list"

definition DefaultTransmitInterval :: cint where
  "DefaultTransmitInterval = 10000"

text \<open>The initialiser of the static member: \<^verbatim>\<open>m_sequenceId = 1\<close>.\<close>

definition initial_sequenceId :: uint16_t where
  "initial_sequenceId = 1"

text \<open>
  The constructor. The static counter is not a field of the object: the constructor
  leaves it as it is, so its current value is passed in.
\<close>

definition ICMPPingTransmitter :: "ICMPPingEngine \<Rightarrow> uint16_t \<Rightarrow> state" where
  "ICMPPingTransmitter engine sequenceId =
     \<lparr> m_interval = DefaultTransmitInterval,
       m_engine = engine,
       m_isRunning = False,
       m_targets = [],
       m_sequenceId = sequenceId,
       calls = [] \<rparr>"

definition setInterval :: "cint \<Rightarrow> state \<Rightarrow> bool \<times> state" where
  "setInterval interval_arg st = (True, st\<lparr>m_interval := interval_arg\<rparr>)"

definition interval :: "state \<Rightarrow> cint" where
  "interval st = m_interval st"

definition addTarget :: "ICMPPingTarget \<Rightarrow> state \<Rightarrow> state" where
  "addTarget target st = st\<lparr>m_targets := m_targets st @ [target]\<rparr>"

text \<open>
  \<^verbatim>\<open>uint16_t currentSequenceId = m_sequenceId++;\<close> returns the old value and stores the
  old value plus one, modulo \<open>2 ^ 16\<close> (addition on \<^typ>\<open>16 word\<close> wraps).
\<close>

definition allocSequenceId :: "uint16_t \<Rightarrow> uint16_t \<times> uint16_t" where
  "allocSequenceId sequenceId = (sequenceId, sequenceId + 1)"

definition emit :: "call list \<Rightarrow> state \<Rightarrow> state" where
  "emit cs st = st\<lparr>calls := calls st @ cs\<rparr>"

text \<open>
  The body of \<^verbatim>\<open>for (auto target : m_targets)\<close>, lines 73 to 107. \<open>result\<close> is what
  \<^verbatim>\<open>socket->sendto\<close> returned for this packet.
\<close>

definition transmitTarget ::
  "pingPacket_fn \<Rightarrow> ulong \<Rightarrow> int \<Rightarrow> ICMPPingTarget \<Rightarrow> state \<Rightarrow> state" where
  "transmitTarget pingPacket sampleNumber result target st =
     (let st1 = emit [SequenceLock] st;
          (currentSequenceId, next_id) = allocSequenceId (m_sequenceId st1);
          st2 = emit [SequenceUnlock] (st1\<lparr>m_sequenceId := next_id\<rparr>);
          pingItem = \<lparr> item_target = target,
                       item_id = target_id target,
                       item_sequenceId = currentSequenceId,
                       item_sampleNumber = sampleNumber \<rparr>;
          st3 = emit [AddRequest pingItem] st2;
          buffer = pingPacket (target_id target) currentSequenceId 52 (hostAddress target)
                     (version (m_engine st3));
          st4 = emit [PingPacket (target_id target) currentSequenceId 52 (hostAddress target)
                        (version (m_engine st3))] st3;
          st5 = emit [Sendto buffer (hostAddress target)] st4;
          st6 = emit [StartTimer pingItem] st5
      in if result \<noteq> int (length buffer) then emit [LogError (hostAddress target)] st6
         else st6)"

text \<open>
  What the other transmitters of the process do to the static counter between two
  allocations of this one: each of their \<open>k\<close> allocations is line 78 as well.
\<close>

definition otherTransmitters :: "nat \<Rightarrow> state \<Rightarrow> state" where
  "otherTransmitters k st =
     emit [OtherAllocations k]
       (st\<lparr>m_sequenceId := ((\<lambda>sequenceId. snd (allocSequenceId sequenceId)) ^^ k)
                               (m_sequenceId st)\<rparr>)"

text \<open>
  The \<^verbatim>\<open>for\<close> loop over \<^verbatim>\<open>m_targets\<close>. For the target at position \<open>i\<close> of the list,
  \<open>others i\<close> is the number of allocations that other transmitters made since this
  transmitter's previous one, and \<open>results i\<close> is what \<^verbatim>\<open>sendto\<close> returns.
\<close>

fun transmitTargets ::
  "pingPacket_fn \<Rightarrow> ulong \<Rightarrow> (nat \<Rightarrow> nat) \<Rightarrow> (nat \<Rightarrow> int) \<Rightarrow> nat \<Rightarrow> ICMPPingTarget list
     \<Rightarrow> state \<Rightarrow> state" where
  "transmitTargets pingPacket sampleNumber others results i [] st = st"
| "transmitTargets pingPacket sampleNumber others results i (target # rest) st =
     transmitTargets pingPacket sampleNumber others results (Suc i) rest
       (transmitTarget pingPacket sampleNumber (results i) target
          (otherTransmitters (others i) st))"

text \<open>
  What one iteration of \<^verbatim>\<open>while (m_isRunning)\<close> takes from outside:
  \<^item> \<open>arrivals\<close>: the targets that calls of \<^verbatim>\<open>addTarget\<close> from other threads appended
    since the previous iteration, before this one took \<^verbatim>\<open>m_targetsMutex\<close>;
  \<^item> \<open>otherAllocations\<close>: for each position of the target list, the number of sequence
    numbers that other transmitters allocated since this transmitter's previous
    allocation;
  \<^item> \<open>sendtoResult\<close>: what \<^verbatim>\<open>sendto\<close> returns for each position of the target list;
  \<^item> \<open>elapsed\<close>: what \<^verbatim>\<open>elapsedTimer.elapsed()\<close> returns after the targets were probed;
  \<^item> \<open>stopRequested\<close>: whether another thread cleared \<^verbatim>\<open>m_isRunning\<close> before the loop
    tests it again.
\<close>

record round_env =
  arrivals :: "ICMPPingTarget list"
  otherAllocations :: "nat \<Rightarrow> nat"
  sendtoResult :: "nat \<Rightarrow> int"
  elapsed :: qint64
  stopRequested :: bool

text \<open>
  Lines 112 to 116; \<open>elapsedTime\<close> is what \<^verbatim>\<open>elapsedTimer.elapsed()\<close> returned at line
  112. \<^verbatim>\<open>elapsedTime < m_interval\<close> compares a \<^verbatim>\<open>qint64\<close> with an
  \<^verbatim>\<open>int\<close>: the \<^verbatim>\<open>int\<close> is sign-extended and the comparison is signed. The difference
  is a \<^verbatim>\<open>qint64\<close>, converted to the \<^verbatim>\<open>unsigned long\<close> that \<^verbatim>\<open>msleep\<close> takes.
\<close>

definition sleepRemainder :: "qint64 \<Rightarrow> state \<Rightarrow> state" where
  "sleepRemainder elapsedTime st =
     (let st1 = emit [TimerElapsed elapsedTime] st
      in if elapsedTime <s scast (m_interval st1)
         then emit [MSleep (ucast (scast (m_interval st1) - elapsedTime))] st1
         else st1)"

text \<open>
  The body of \<^verbatim>\<open>while (m_isRunning)\<close>, lines 64 to 118, for the value \<open>sampleNumber\<close>
  of the local counter. The increment of the counter is in \<open>doWork_loop\<close> below. The
  \<^verbatim>\<open>SPDLOG_TRACE\<close> lines only write to the trace log and are left out.
\<close>

definition transmitRound ::
  "pingPacket_fn \<Rightarrow> round_env \<Rightarrow> ulong \<Rightarrow> state \<Rightarrow> state" where
  "transmitRound pingPacket env sampleNumber st =
     (let st1 = foldl (\<lambda>s target. addTarget target s) st (arrivals env);
          st2 = emit [TimerRestart, TargetsLock] st1;
          st3 = transmitTargets pingPacket sampleNumber (otherAllocations env)
                  (sendtoResult env) 0 (m_targets st2) st2;
          st4 = emit [TargetsUnlock] st3;
          st5 = sleepRemainder (elapsed env) st4
      in st5\<lparr>m_isRunning := m_isRunning st5 \<and> \<not> stopRequested env\<rparr>)"

text \<open>
  The loop runs until another thread clears \<^verbatim>\<open>m_isRunning\<close>, so it need not return.
  The model runs it on a list of rounds: \<open>Returned\<close> when the loop found
  \<^verbatim>\<open>m_isRunning\<close> false, \<open>StillRunning\<close> when the list ended with the loop still
  going; both carry the state reached.
\<close>

datatype 'a outcome = Returned 'a | StillRunning 'a

fun state_of :: "'a outcome \<Rightarrow> 'a" where
  "state_of (Returned st) = st"
| "state_of (StillRunning st) = st"

fun returned :: "'a outcome \<Rightarrow> bool" where
  "returned (Returned st) = True"
| "returned (StillRunning st) = False"

fun doWork_loop ::
  "pingPacket_fn \<Rightarrow> round_env list \<Rightarrow> ulong \<Rightarrow> state \<Rightarrow> state outcome" where
  "doWork_loop pingPacket [] sampleNumber st =
     (if m_isRunning st then StillRunning st else Returned st)"
| "doWork_loop pingPacket (env # envs) sampleNumber st =
     (if m_isRunning st
      then doWork_loop pingPacket envs (sampleNumber + 1)
             (transmitRound pingPacket env sampleNumber st)
      else Returned st)"

text \<open>\<^verbatim>\<open>doWork\<close>; \<open>now\<close> is what \<^verbatim>\<open>QDateTime::currentDateTime()\<close> returns.\<close>

definition doWork ::
  "pingPacket_fn \<Rightarrow> QDateTime \<Rightarrow> round_env list \<Rightarrow> state \<Rightarrow> state outcome" where
  "doWork pingPacket now envs st =
     (let st1 = st\<lparr>m_isRunning := True\<rparr>;
          st2 = emit [SetEpoch now] (st1\<lparr>m_engine := setEpoch now (m_engine st1)\<rparr>)
      in doWork_loop pingPacket envs 0 st2)"

subsection \<open>Reading the list of calls\<close>

text \<open>
  The items handed to \<^verbatim>\<open>addRequest\<close>, the packets handed to \<^verbatim>\<open>sendto\<close>, the hosts of
  the logged send errors, the arguments of \<^verbatim>\<open>msleep\<close> and the arguments of
  \<^verbatim>\<open>setEpoch\<close>, each in the order of the calls.
\<close>

definition registered :: "call list \<Rightarrow> ICMPPingItem list" where
  "registered cs = concat (map (\<lambda>c. case c of AddRequest pingItem \<Rightarrow> [pingItem] | _ \<Rightarrow> []) cs)"

definition sent :: "call list \<Rightarrow> (QByteArray \<times> QHostAddress) list" where
  "sent cs = concat (map (\<lambda>c. case c of Sendto buffer host \<Rightarrow> [(buffer, host)] | _ \<Rightarrow> []) cs)"

definition errors :: "call list \<Rightarrow> QHostAddress list" where
  "errors cs = concat (map (\<lambda>c. case c of LogError host \<Rightarrow> [host] | _ \<Rightarrow> []) cs)"

definition slept :: "call list \<Rightarrow> ulong list" where
  "slept cs = concat (map (\<lambda>c. case c of MSleep ms \<Rightarrow> [ms] | _ \<Rightarrow> []) cs)"

definition epochs :: "call list \<Rightarrow> QDateTime list" where
  "epochs cs = concat (map (\<lambda>c. case c of SetEpoch t \<Rightarrow> [t] | _ \<Rightarrow> []) cs)"

text \<open>The readings of the elapsed timer.\<close>

definition measured :: "call list \<Rightarrow> qint64 list" where
  "measured cs = concat (map (\<lambda>c. case c of TimerElapsed elapsedTime \<Rightarrow> [elapsedTime] | _ \<Rightarrow> []) cs)"



subsection \<open>Positions in the list of calls\<close>

text \<open>
  \<open>first_index P cs\<close> is the position of the first call of \<open>cs\<close> that satisfies
  \<open>P\<close> (the length of \<open>cs\<close> when there is none).
\<close>

fun isAddRequest :: "call \<Rightarrow> bool" where
  "isAddRequest (AddRequest pingItem) = True"
| "isAddRequest c = False"

fun isSendto :: "call \<Rightarrow> bool" where
  "isSendto (Sendto buffer host) = True"
| "isSendto c = False"

definition first_index :: "(call \<Rightarrow> bool) \<Rightarrow> call list \<Rightarrow> nat" where
  "first_index P cs = length (takeWhile (\<lambda>c. \<not> P c) cs)"

subsection \<open>Counting the allocations\<close>






text \<open>
  The sequence number that the loop over the targets, entered at position \<open>i\<close> with the
  counter at \<open>sequenceId\<close>, allocates \<open>k\<close> targets later: its own \<open>k\<close> allocations
  and those of the other transmitters up to then lie before it.
\<close>

definition sequenceIdAt :: "(nat \<Rightarrow> nat) \<Rightarrow> nat \<Rightarrow> uint16_t \<Rightarrow> nat \<Rightarrow> uint16_t" where
  "sequenceIdAt others i sequenceId k = sequenceId + of_nat (k + (\<Sum>m = i..i + k. others m))"

subsection \<open>The requests in flight\<close>

text \<open>
  Modelled from the spec: the pending table and the receiver are not among the sources.
  By the specification a ping item is pending from the moment it is sent until the
  receiver completes it on the matching reply, or until its age exceeds the configured
  timeout and the sweep of the pending table removes it.

  Time is counted in milliseconds on the transmitter's own calls, and generously: a
  reading \<open>elapsedTime\<close> of the elapsed timer stands for \<open>elapsedTime + 1\<close>
  milliseconds (the timer counts whole milliseconds, so less than that has passed since
  its restart), \<^verbatim>\<open>msleep(ms)\<close> for \<open>ms\<close> milliseconds, and the few instructions
  between the reading of the timer and its next restart for none. \<open>duration cs\<close> is
  the time that the calls \<open>cs\<close> took. \<open>sendTimes t cs\<close> gives, for every request
  registered in \<open>cs\<close>, the time at which its iteration restarted the timer, counted
  from \<open>t\<close>: the request was not sent before. \<open>in_flight timeout replied cs\<close> are
  the requests that are pending after the calls \<open>cs\<close>: those that are not older than
  \<open>timeout\<close> and whose reply the receiver has not matched.
\<close>

fun advance :: "call \<Rightarrow> int" where
  "advance (TimerElapsed elapsedTime) = sint elapsedTime + 1"
| "advance (MSleep ms) = int (unat ms)"
| "advance c = 0"

definition duration :: "call list \<Rightarrow> int" where
  "duration cs = sum_list (map advance cs)"

fun sendTimes :: "int \<Rightarrow> call list \<Rightarrow> int list" where
  "sendTimes t [] = []"
| "sendTimes t (c # cs) = (if isAddRequest c then [t] else []) @ sendTimes (t + advance c) cs"

definition in_flight :: "int \<Rightarrow> (ICMPPingItem \<Rightarrow> bool) \<Rightarrow> call list \<Rightarrow> ICMPPingItem list" where
  "in_flight timeout replied cs =
     map fst (filter (\<lambda>(pingItem, sentAt). duration cs - sentAt \<le> timeout \<and> \<not> replied pingItem)
                (zip (registered cs) (sendTimes 0 cs)))"

subsection \<open>A concrete transmitter\<close>

text \<open>
  One target, a packet builder that returns \<open>payloadLength\<close> zero bytes, and rounds
  in which every \<^verbatim>\<open>sendto\<close> returns \<open>result\<close> and the elapsed timer reads
  \<open>elapsedTime\<close>, while no target is added and no other transmitter allocates. The
  closed theorems below evaluate the model on them.
\<close>

definition example_pingPacket :: pingPacket_fn where
  "example_pingPacket ident sequenceId payloadLength host ipVersion = replicate payloadLength 0"

definition example_target :: ICMPPingTarget where
  "example_target = \<lparr> target_id = 7, hostAddress = ''192.0.2.1'', ttl = 64 \<rparr>"

definition example_engine :: ICMPPingEngine where
  "example_engine = \<lparr> m_epoch = 0, m_version = V4 \<rparr>"

definition example_state :: "uint16_t \<Rightarrow> state" where
  "example_state sequenceId =
     addTarget example_target (ICMPPingTransmitter example_engine sequenceId)"

definition example_env :: "int \<Rightarrow> qint64 \<Rightarrow> round_env" where
  "example_env result elapsedTime =
     \<lparr> arrivals = [], otherAllocations = (\<lambda>i. 0),
       sendtoResult = (\<lambda>i. result), elapsed = elapsedTime, stopRequested = False \<rparr>"

text \<open>
  A round before which other transmitters of the process allocate \<open>k\<close> sequence
  numbers, and a run of the concrete transmitter with three rounds: nobody else
  allocates before the first, two other transmitters allocate one number each before
  the second and before the third.
\<close>

definition shared_env :: "nat \<Rightarrow> round_env" where
  "shared_env k = (example_env 52 20)\<lparr>otherAllocations := (\<lambda>i. k)\<rparr>"

definition shared_run :: state where
  "shared_run = state_of (doWork example_pingPacket 1000
                   [example_env 52 20, shared_env 2, shared_env 2] (example_state 1))"




subsection \<open>The threads around the target list\<close>

text \<open>
  \<^verbatim>\<open>doWork\<close> runs in the transmitter's thread; \<^verbatim>\<open>addTarget\<close> is called from other
  threads. Both take \<^verbatim>\<open>m_targetsMutex\<close>: \<^verbatim>\<open>doWork\<close> with \<^verbatim>\<open>lock()\<close> at line 70 and
  \<^verbatim>\<open>unlock()\<close> at line 110, \<^verbatim>\<open>addTarget\<close> with the \<^verbatim>\<open>QMutexLocker\<close> of line 129, which
  unlocks when the function returns. The model below interleaves the steps of these
  threads. Each thread has a program counter; the mutex records its owner.

  Two places touch the list without the mutex and are not steps of the model: the test
  \<^verbatim>\<open>m_targets.isEmpty()\<close> of line 64, which reads the list for a trace message, and the
  destructor, which deletes the targets when the transmitter itself is destroyed.
  Neither adds or removes an element.
\<close>

datatype thread = Transmitter | Caller nat

datatype tx_pc = Outside | Iterating nat

datatype caller_pc = Idle | Locked ICMPPingTarget | Appended

text \<open>
  \<open>lockedTargets\<close> and \<open>probed\<close> are history variables: the target list as it
  was when the transmitter last took the mutex, and the targets it has probed since.
\<close>

record system =
  this :: state
  targetsMutex :: "thread option"
  transmitter_pc :: tx_pc
  caller_pc :: "nat \<Rightarrow> caller_pc"
  tx_sampleNumber :: ulong
  lockedTargets :: "ICMPPingTarget list"
  probed :: "ICMPPingTarget list"

text \<open>
  The steps:
  \<^item> \<open>TxLock\<close>: lines 68 to 70, the transmitter restarts the timer and takes the mutex;
  \<^item> \<open>TxProbe result\<close>: one pass through the body of the \<^verbatim>\<open>for\<close> loop, lines 73 to
    107, for the next target of the list;
  \<^item> \<open>TxUnlock elapsedTime\<close>: the list is exhausted; lines 110 to 118, the transmitter
    releases the mutex, sleeps and increments the sample number;
  \<^item> \<open>AddLock c target\<close>: caller \<open>c\<close> entered \<^verbatim>\<open>addTarget(target)\<close> and its
    \<^verbatim>\<open>QMutexLocker\<close> takes the mutex, line 129;
  \<^item> \<open>AddAppend c\<close>: line 131, \<^verbatim>\<open>m_targets.append(target)\<close>;
  \<^item> \<open>AddUnlock c\<close>: \<^verbatim>\<open>addTarget\<close> returns and the locker releases the mutex.
\<close>

datatype action =
    TxLock
  | TxProbe int
  | TxUnlock qint64
  | AddLock nat ICMPPingTarget
  | AddAppend nat
  | AddUnlock nat

text \<open>
  A step that cannot be taken gives \<open>None\<close>: taking a mutex that is held blocks.
  Only the two steps that take the mutex look at it; that a thread inside its critical
  section owns the mutex is proved below, not assumed.
\<close>

fun step :: "pingPacket_fn \<Rightarrow> action \<Rightarrow> system \<Rightarrow> system option" where
  "step pingPacket TxLock s =
     (if transmitter_pc s = Outside \<and> targetsMutex s = None
      then Some (s\<lparr>this := emit [TimerRestart, TargetsLock] (this s),
                   targetsMutex := Some Transmitter,
                   transmitter_pc := Iterating 0,
                   lockedTargets := m_targets (this s),
                   probed := []\<rparr>)
      else None)"
| "step pingPacket (TxProbe result) s =
     (case transmitter_pc s of
        Outside \<Rightarrow> None
      | Iterating i \<Rightarrow>
          if i < length (m_targets (this s))
          then Some (s\<lparr>this := transmitTarget pingPacket (tx_sampleNumber s) result
                                  (m_targets (this s) ! i) (this s),
                       transmitter_pc := Iterating (Suc i),
                       probed := probed s @ [m_targets (this s) ! i]\<rparr>)
          else None)"
| "step pingPacket (TxUnlock elapsedTime) s =
     (case transmitter_pc s of
        Outside \<Rightarrow> None
      | Iterating i \<Rightarrow>
          if i < length (m_targets (this s)) then None
          else Some (s\<lparr>this := sleepRemainder elapsedTime (emit [TargetsUnlock] (this s)),
                       targetsMutex := None,
                       transmitter_pc := Outside,
                       tx_sampleNumber := tx_sampleNumber s + 1\<rparr>))"
| "step pingPacket (AddLock c target) s =
     (if caller_pc s c = Idle \<and> targetsMutex s = None
      then Some (s\<lparr>targetsMutex := Some (Caller c),
                   caller_pc := (caller_pc s)(c := Locked target)\<rparr>)
      else None)"
| "step pingPacket (AddAppend c) s =
     (case caller_pc s c of
        Locked target \<Rightarrow>
          Some (s\<lparr>this := addTarget target (this s),
                  caller_pc := (caller_pc s)(c := Appended)\<rparr>)
      | _ \<Rightarrow> None)"
| "step pingPacket (AddUnlock c) s =
     (case caller_pc s c of
        Appended \<Rightarrow> Some (s\<lparr>targetsMutex := None, caller_pc := (caller_pc s)(c := Idle)\<rparr>)
      | _ \<Rightarrow> None)"

fun run :: "pingPacket_fn \<Rightarrow> action list \<Rightarrow> system \<Rightarrow> system option" where
  "run pingPacket [] s = Some s"
| "run pingPacket (a # as) s =
     (case step pingPacket a s of None \<Rightarrow> None | Some s' \<Rightarrow> run pingPacket as s')"

definition start_system :: "state \<Rightarrow> system" where
  "start_system st =
     \<lparr> this = st, targetsMutex = None, transmitter_pc = Outside, caller_pc = (\<lambda>c. Idle),
       tx_sampleNumber = 0, lockedTargets = [], probed = [] \<rparr>"

text \<open>
  The invariant of the interleaving: the transmitter owns the mutex exactly while it
  iterates, the list is then the one it locked and the probes follow it; a caller owns
  the mutex exactly while it is between its lock and its unlock.
\<close>

definition registry_inv :: "system \<Rightarrow> bool" where
  "registry_inv s =
     ((case transmitter_pc s of
         Outside \<Rightarrow> targetsMutex s \<noteq> Some Transmitter
       | Iterating i \<Rightarrow>
           targetsMutex s = Some Transmitter \<and> i \<le> length (m_targets (this s))
           \<and> m_targets (this s) = lockedTargets s \<and> probed s = take i (lockedTargets s))
      \<and> (\<forall>c. (caller_pc s c = Idle) = (targetsMutex s \<noteq> Some (Caller c))))"

text \<open>The concrete transmitter in the middle of a round: locked, one target probed.\<close>

definition round_in_progress :: system where
  "round_in_progress =
     the (run example_pingPacket [TxLock, TxProbe 52] (start_system (example_state 1)))"

subsection \<open>The threads around the sequence counter\<close>









section \<open>Auxiliary facts\<close>

subsection \<open>The calls of one target and of the loop over the targets\<close>

lemma registered_append: "registered (xs @ ys) = registered xs @ registered ys"
  by (simp add: registered_def)
lemma sent_append: "sent (xs @ ys) = sent xs @ sent ys"
  by (simp add: sent_def)
lemma errors_append: "errors (xs @ ys) = errors xs @ errors ys"
  by (simp add: errors_def)
lemma slept_append: "slept (xs @ ys) = slept xs @ slept ys"
  by (simp add: slept_def)
lemma epochs_append: "epochs (xs @ ys) = epochs xs @ epochs ys"
  by (simp add: epochs_def)

lemma measured_append: "measured (xs @ ys) = measured xs @ measured ys"
  by (simp add: measured_def)

lemmas proj_append = registered_append sent_append errors_append slept_append epochs_append
  measured_append

lemma transmitTarget_calls:
  "calls (transmitTarget pingPacket n r t st) =
     calls st @
     [SequenceLock, SequenceUnlock,
      AddRequest \<lparr>item_target = t, item_id = target_id t,
                  item_sequenceId = m_sequenceId st, item_sampleNumber = n\<rparr>,
      PingPacket (target_id t) (m_sequenceId st) 52 (hostAddress t) (version (m_engine st)),
      Sendto (pingPacket (target_id t) (m_sequenceId st) 52 (hostAddress t) (version (m_engine st)))
             (hostAddress t),
      StartTimer \<lparr>item_target = t, item_id = target_id t,
                  item_sequenceId = m_sequenceId st, item_sampleNumber = n\<rparr>] @
     (if r \<noteq> int (length (pingPacket (target_id t) (m_sequenceId st) 52 (hostAddress t)
                               (version (m_engine st))))
      then [LogError (hostAddress t)] else [])"
  by (simp add: transmitTarget_def Let_def emit_def allocSequenceId_def)

lemma transmitTarget_frame:
  "m_interval (transmitTarget pingPacket n r t st) = m_interval st"
  "m_engine (transmitTarget pingPacket n r t st) = m_engine st"
  "m_isRunning (transmitTarget pingPacket n r t st) = m_isRunning st"
  "m_targets (transmitTarget pingPacket n r t st) = m_targets st"
  "m_sequenceId (transmitTarget pingPacket n r t st) = m_sequenceId st + 1"
  by (simp_all add: transmitTarget_def Let_def emit_def allocSequenceId_def)

lemma transmitTarget_registered:
  "registered (calls (transmitTarget pingPacket n r t st)) =
     registered (calls st) @
     [\<lparr>item_target = t, item_id = target_id t,
       item_sequenceId = m_sequenceId st, item_sampleNumber = n\<rparr>]"
  by (simp add: transmitTarget_calls registered_append) (simp add: registered_def)

lemma transmitTarget_sent:
  "sent (calls (transmitTarget pingPacket n r t st)) =
     sent (calls st) @
     [(pingPacket (target_id t) (m_sequenceId st) 52 (hostAddress t) (version (m_engine st)),
       hostAddress t)]"
  by (simp add: transmitTarget_calls sent_append) (simp add: sent_def)

lemma transmitTarget_errors:
  "errors (calls (transmitTarget pingPacket n r t st)) =
     errors (calls st) @
     (if r \<noteq> int (length (pingPacket (target_id t) (m_sequenceId st) 52 (hostAddress t)
                               (version (m_engine st))))
      then [hostAddress t] else [])"
  by (simp add: transmitTarget_calls errors_append) (simp add: errors_def)

lemma transmitTarget_slept:
  "slept (calls (transmitTarget pingPacket n r t st)) = slept (calls st)"
  by (simp add: transmitTarget_calls slept_append) (simp add: slept_def)

lemma transmitTarget_epochs:
  "epochs (calls (transmitTarget pingPacket n r t st)) = epochs (calls st)"
  by (simp add: transmitTarget_calls epochs_append) (simp add: epochs_def)

lemma transmitTarget_measured:
  "measured (calls (transmitTarget pingPacket n r t st)) = measured (calls st)"
  by (simp add: transmitTarget_calls measured_append) (simp add: measured_def)

lemma other_allocations_counter:
  "((\<lambda>sequenceId. snd (allocSequenceId sequenceId)) ^^ k) s = s + of_nat k"
  by (induction k) (simp_all add: allocSequenceId_def)

lemma otherTransmitters_fields:
  "m_interval (otherTransmitters k st) = m_interval st"
  "m_engine (otherTransmitters k st) = m_engine st"
  "m_isRunning (otherTransmitters k st) = m_isRunning st"
  "m_targets (otherTransmitters k st) = m_targets st"
  "m_sequenceId (otherTransmitters k st) = m_sequenceId st + of_nat k"
  by (simp_all add: otherTransmitters_def emit_def other_allocations_counter)

lemma otherTransmitters_calls:
  "calls (otherTransmitters k st) = calls st @ [OtherAllocations k]"
  by (simp add: otherTransmitters_def emit_def)

lemma otherTransmitters_projections:
  "registered (calls (otherTransmitters k st)) = registered (calls st)"
  "sent (calls (otherTransmitters k st)) = sent (calls st)"
  "errors (calls (otherTransmitters k st)) = errors (calls st)"
  "slept (calls (otherTransmitters k st)) = slept (calls st)"
  "epochs (calls (otherTransmitters k st)) = epochs (calls st)"
  "measured (calls (otherTransmitters k st)) = measured (calls st)"
  by (simp_all add: otherTransmitters_calls proj_append)
     (simp_all add: registered_def sent_def errors_def slept_def epochs_def measured_def)

lemma sequenceIdAt_0: "sequenceIdAt others i s 0 = s + of_nat (others i)"
  by (simp add: sequenceIdAt_def)

lemma sequenceIdAt_Suc:
  "sequenceIdAt others (Suc i) (s + of_nat (others i) + 1) k = sequenceIdAt others i s (Suc k)"
proof -
  have "(\<Sum>m = i..i + Suc k. others m) = others i + (\<Sum>m = Suc i..Suc i + k. others m)"
    by (simp add: sum.atLeast_Suc_atMost)
  then show ?thesis
    by (simp add: sequenceIdAt_def)
qed

lemma transmitTargets_frame:
  "m_interval (transmitTargets pingPacket n os rs i ts st) = m_interval st
   \<and> m_engine (transmitTargets pingPacket n os rs i ts st) = m_engine st
   \<and> m_isRunning (transmitTargets pingPacket n os rs i ts st) = m_isRunning st
   \<and> m_targets (transmitTargets pingPacket n os rs i ts st) = m_targets st
   \<and> slept (calls (transmitTargets pingPacket n os rs i ts st)) = slept (calls st)
   \<and> epochs (calls (transmitTargets pingPacket n os rs i ts st)) = epochs (calls st)
   \<and> measured (calls (transmitTargets pingPacket n os rs i ts st)) = measured (calls st)"
  by (induction ts arbitrary: i st)
     (simp_all add: transmitTarget_frame transmitTarget_slept transmitTarget_epochs
        transmitTarget_measured otherTransmitters_fields
        otherTransmitters_projections)


lemma upt_0_Suc_shift: "map f [0..<Suc n] = f 0 # map (\<lambda>k. f (Suc k)) [0..<n]"
  by (simp only: upt_conv_Cons [of 0 "Suc n"] zero_less_Suc if_True list.map
        map_Suc_upt [symmetric] map_map comp_def)

lemma transmitTargets_registered:
  "registered (calls (transmitTargets pingPacket n os rs i ts st)) =
     registered (calls st) @
     map (\<lambda>k. \<lparr>item_target = ts ! k, item_id = target_id (ts ! k),
                item_sequenceId = sequenceIdAt os i (m_sequenceId st) k,
                item_sampleNumber = n\<rparr>)
         [0..<length ts]"
proof (induction ts arbitrary: i st)
  case Nil
  show ?case by simp
next
  case (Cons t ts)
  show ?case
    by (simp only: transmitTargets.simps Cons.IH transmitTarget_registered
          transmitTarget_frame otherTransmitters_fields otherTransmitters_projections
          length_Cons upt_0_Suc_shift sequenceIdAt_Suc)
       (simp add: sequenceIdAt_0)
qed

lemma transmitTargets_sent:
  "sent (calls (transmitTargets pingPacket n os rs i ts st)) =
     sent (calls st) @
     map (\<lambda>k. (pingPacket (target_id (ts ! k)) (sequenceIdAt os i (m_sequenceId st) k) 52
                  (hostAddress (ts ! k)) (version (m_engine st)),
                hostAddress (ts ! k)))
         [0..<length ts]"
proof (induction ts arbitrary: i st)
  case Nil
  show ?case by simp
next
  case (Cons t ts)
  show ?case
    by (simp only: transmitTargets.simps Cons.IH transmitTarget_sent
          transmitTarget_frame otherTransmitters_fields otherTransmitters_projections
          length_Cons upt_0_Suc_shift sequenceIdAt_Suc)
       (simp add: sequenceIdAt_0)
qed

lemma transmitTargets_errors:
  "errors (calls (transmitTargets pingPacket n os rs i ts st)) =
     errors (calls st) @
     map (\<lambda>k. hostAddress (ts ! k))
       (filter (\<lambda>k. rs (i + k) \<noteq>
                  int (length (pingPacket (target_id (ts ! k))
                                 (sequenceIdAt os i (m_sequenceId st) k) 52
                                 (hostAddress (ts ! k)) (version (m_engine st)))))
         [0..<length ts])"
proof (induction ts arbitrary: i st)
  case Nil
  show ?case by simp
next
  case (Cons t ts)
  have shift: "[0..<Suc (length ts)] = 0 # map Suc [0..<length ts]"
    by (simp only: upt_conv_Cons [of 0 "Suc (length ts)"] zero_less_Suc if_True map_Suc_upt)
  show ?case
    by (simp only: transmitTargets.simps Cons.IH transmitTarget_errors
          transmitTarget_frame otherTransmitters_fields otherTransmitters_projections
          length_Cons shift sequenceIdAt_Suc)
       (simp add: filter_map comp_def sequenceIdAt_0)
qed

subsection \<open>The sleep\<close>

lemma sint_scast_interval: "sint (scast (iv :: cint) :: qint64) = sint iv"
  by (simp add: sint_up_scast is_up)

lemma sless_interval: "(el <s (scast (iv :: cint) :: qint64)) = (sint el < sint iv)"
  by (simp add: word_sless_alt sint_scast_interval)

lemma sint_interval_bounds: "- (2 ^ 31) \<le> sint (iv :: cint) \<and> sint iv < 2 ^ 31"
  using sint_ge [of iv] sint_lt [of iv] by simp

lemma unat_sleep_amount:
  assumes "0 \<le> sint (el :: qint64)" "sint el < sint (iv :: cint)"
  shows "unat (ucast ((scast iv :: qint64) - el) :: ulong) = nat (sint iv - sint el)"
proof -
  let ?d = "(scast iv :: qint64) - el"
  have range: "- (2 ^ 63) \<le> sint iv - sint el \<and> sint iv - sint el < 2 ^ 63"
    using assms sint_interval_bounds [of iv] by simp
  have "sint ?d = signed_take_bit 63 (sint iv - sint el)"
    by (simp add: sint_word_ariths sint_scast_interval)
  also have "\<dots> = sint iv - sint el"
    using range by (simp add: signed_take_bit_int_eq_self)
  finally have sd: "sint ?d = sint iv - sint el" .
  have "uint ?d = take_bit 64 (sint ?d)"
    by (simp add: uint_sint)
  also have "\<dots> = sint iv - sint el"
    using assms sint_interval_bounds [of iv] by (simp add: sd take_bit_int_eq_self)
  finally show ?thesis
    by (simp add: unat_eq_nat_uint)
qed


subsection \<open>One round\<close>

lemma emit_fields:
  "m_interval (emit cs st) = m_interval st"
  "m_engine (emit cs st) = m_engine st"
  "m_isRunning (emit cs st) = m_isRunning st"
  "m_targets (emit cs st) = m_targets st"
  "m_sequenceId (emit cs st) = m_sequenceId st"
  "calls (emit cs st) = calls st @ cs"
  by (simp_all add: emit_def)

lemma foldl_addTarget:
  "foldl (\<lambda>s target. addTarget target s) st ts = st\<lparr>m_targets := m_targets st @ ts\<rparr>"
  by (induction ts arbitrary: st) (simp_all add: addTarget_def)

lemma sleepRemainder_fields:
  "m_interval (sleepRemainder el st) = m_interval st"
  "m_engine (sleepRemainder el st) = m_engine st"
  "m_isRunning (sleepRemainder el st) = m_isRunning st"
  "m_targets (sleepRemainder el st) = m_targets st"
  "m_sequenceId (sleepRemainder el st) = m_sequenceId st"
  "registered (calls (sleepRemainder el st)) = registered (calls st)"
  "sent (calls (sleepRemainder el st)) = sent (calls st)"
  "errors (calls (sleepRemainder el st)) = errors (calls st)"
  "epochs (calls (sleepRemainder el st)) = epochs (calls st)"
  "measured (calls (sleepRemainder el st)) = measured (calls st) @ [el]"
  by (simp_all add: sleepRemainder_def Let_def emit_fields proj_append)
     (simp_all add: registered_def sent_def errors_def epochs_def measured_def)

lemma sleepRemainder_calls:
  "calls (sleepRemainder el st) =
     calls st @ [TimerElapsed el] @
     (if el <s scast (m_interval st) then [MSleep (ucast (scast (m_interval st) - el))] else [])"
  by (simp add: sleepRemainder_def Let_def emit_fields)

lemma sleepRemainder_slept:
  "slept (calls (sleepRemainder el st)) =
     slept (calls st) @
     (if el <s scast (m_interval st) then [ucast (scast (m_interval st) - el)] else [])"
  by (simp add: sleepRemainder_calls proj_append) (simp add: slept_def)

lemma transmitRound_fields:
  "m_interval (transmitRound pingPacket env n st) = m_interval st"
  "m_engine (transmitRound pingPacket env n st) = m_engine st"
  "m_isRunning (transmitRound pingPacket env n st) = (m_isRunning st \<and> \<not> stopRequested env)"
  "m_targets (transmitRound pingPacket env n st) = m_targets st @ arrivals env"
  by (simp_all add: transmitRound_def Let_def foldl_addTarget sleepRemainder_fields
        emit_fields transmitTargets_frame)


lemma transmitRound_epochs:
  "epochs (calls (transmitRound pingPacket env n st)) = epochs (calls st)"
  by (simp add: transmitRound_def Let_def foldl_addTarget sleepRemainder_fields
        emit_fields transmitTargets_frame proj_append)
     (simp add: epochs_def)


lemma transmitRound_registered:
  "registered (calls (transmitRound pingPacket env n st)) =
     registered (calls st) @
     map (\<lambda>k. \<lparr>item_target = (m_targets st @ arrivals env) ! k,
                item_id = target_id ((m_targets st @ arrivals env) ! k),
                item_sequenceId = sequenceIdAt (otherAllocations env) 0 (m_sequenceId st) k,
                item_sampleNumber = n\<rparr>)
         [0..<length (m_targets st @ arrivals env)]"
  by (simp add: transmitRound_def Let_def foldl_addTarget sleepRemainder_fields
        emit_fields transmitTargets_frame proj_append
        transmitTargets_registered)
     (simp add: registered_def)

lemma transmitRound_sent:
  "sent (calls (transmitRound pingPacket env n st)) =
     sent (calls st) @
     map (\<lambda>k. (pingPacket (target_id ((m_targets st @ arrivals env) ! k))
                  (sequenceIdAt (otherAllocations env) 0 (m_sequenceId st) k) 52
                  (hostAddress ((m_targets st @ arrivals env) ! k)) (version (m_engine st)),
                hostAddress ((m_targets st @ arrivals env) ! k)))
         [0..<length (m_targets st @ arrivals env)]"
  by (simp add: transmitRound_def Let_def foldl_addTarget sleepRemainder_fields
        emit_fields transmitTargets_frame proj_append
        transmitTargets_sent)
     (simp add: sent_def)

lemma transmitRound_errors:
  "errors (calls (transmitRound pingPacket env n st)) =
     errors (calls st) @
     map (\<lambda>k. hostAddress ((m_targets st @ arrivals env) ! k))
       (filter (\<lambda>k. sendtoResult env k \<noteq>
                  int (length (pingPacket (target_id ((m_targets st @ arrivals env) ! k))
                                 (sequenceIdAt (otherAllocations env) 0 (m_sequenceId st) k) 52
                                 (hostAddress ((m_targets st @ arrivals env) ! k))
                                 (version (m_engine st)))))
         [0..<length (m_targets st @ arrivals env)])"
  by (simp add: transmitRound_def Let_def foldl_addTarget sleepRemainder_fields
        emit_fields transmitTargets_frame proj_append
        transmitTargets_errors)
     (simp add: errors_def)

lemma transmitRound_slept:
  "slept (calls (transmitRound pingPacket env n st)) =
     slept (calls st) @
     (if elapsed env <s scast (m_interval st)
      then [ucast (scast (m_interval st) - elapsed env)] else [])"
  by (simp add: transmitRound_def Let_def foldl_addTarget sleepRemainder_slept
        emit_fields transmitTargets_frame proj_append)
     (simp add: slept_def)

subsection \<open>The loop\<close>

lemma doWork_loop_snoc:
  "m_isRunning st \<Longrightarrow> \<forall>e\<in>set es. \<not> stopRequested e \<Longrightarrow>
   state_of (doWork_loop pingPacket (es @ [env]) n st) =
     transmitRound pingPacket env (n + of_nat (length es))
       (state_of (doWork_loop pingPacket es n st))
   \<and> returned (doWork_loop pingPacket (es @ [env]) n st) = stopRequested env
   \<and> \<not> returned (doWork_loop pingPacket es n st)"
proof (induction es arbitrary: n st)
  case Nil
  then show ?case by (simp add: transmitRound_fields)
next
  case (Cons e es)
  have run: "m_isRunning (transmitRound pingPacket e n st)"
    using Cons.prems by (simp add: transmitRound_fields)
  have rest: "\<forall>e\<in>set es. \<not> stopRequested e"
    using Cons.prems by simp
  show ?case
    using Cons.IH [OF run rest, of "n + 1"] Cons.prems(1)
    by (simp add: ac_simps)
qed

lemma doWork_loop_invariant:
  "m_interval (state_of (doWork_loop pingPacket es n st)) = m_interval st
   \<and> m_engine (state_of (doWork_loop pingPacket es n st)) = m_engine st
   \<and> epochs (calls (state_of (doWork_loop pingPacket es n st))) = epochs (calls st)"
  by (induction es arbitrary: n st)
     (simp_all add: transmitRound_fields transmitRound_epochs)

lemma doWork_snoc:
  assumes "\<forall>e\<in>set es. \<not> stopRequested e"
  shows "state_of (doWork pingPacket now (es @ [env]) st) =
           transmitRound pingPacket env (of_nat (length es))
             (state_of (doWork pingPacket now es st))"
    and "returned (doWork pingPacket now (es @ [env]) st) = stopRequested env"
    and "\<not> returned (doWork pingPacket now es st)"
  using doWork_loop_snoc [of "emit [SetEpoch now] (st\<lparr>m_isRunning := True, m_engine := setEpoch now (m_engine st)\<rparr>)" es pingPacket env 0] assms
  by (simp_all add: doWork_def Let_def emit_def)

lemma doWork_fields:
  "m_interval (state_of (doWork pingPacket now es st)) = m_interval st"
  "m_engine (state_of (doWork pingPacket now es st)) = setEpoch now (m_engine st)"
  "epochs (calls (state_of (doWork pingPacket now es st))) = epochs (calls st) @ [now]"
  by (simp_all add: doWork_def Let_def doWork_loop_invariant emit_fields proj_append)
     (simp add: epochs_def)

lemma doWork_targets:
  "\<forall>e\<in>set es. \<not> stopRequested e \<Longrightarrow>
   m_targets (state_of (doWork pingPacket now es st)) = m_targets st @ concat (map arrivals es)"
proof (induction es rule: rev_induct)
  case Nil
  show ?case by (simp add: doWork_def Let_def emit_def)
next
  case (snoc e es)
  then show ?case
    by (simp add: doWork_snoc(1) transmitRound_fields)
qed

text \<open>
  The calls of one round, in their order: the restart of the timer, the lock, the
  calls for the targets, the unlock, the reading of the timer and, last, the sleep.
\<close>

lemma transmitTargets_probes:
  "\<exists>cs. calls (transmitTargets pingPacket n os rs i ts st) = calls st @ cs
        \<and> TimerRestart \<notin> set cs \<and> TargetsLock \<notin> set cs \<and> TargetsUnlock \<notin> set cs"
proof (induction ts arbitrary: i st)
  case Nil
  show ?case by simp
next
  case (Cons t ts)
  let ?st1 = "transmitTarget pingPacket n (rs i) t (otherTransmitters (os i) st)"
  obtain cs where "calls (transmitTargets pingPacket n os rs (Suc i) ts ?st1) = calls ?st1 @ cs"
    and "TimerRestart \<notin> set cs \<and> TargetsLock \<notin> set cs \<and> TargetsUnlock \<notin> set cs"
    using Cons.IH by blast
  then show ?case
    by (simp add: transmitTarget_calls otherTransmitters_calls otherTransmitters_fields)
qed

lemma transmitRound_calls:
  "\<exists>probes.
     calls (transmitRound pingPacket env n st) =
       calls st @ [TimerRestart, TargetsLock] @ probes @
       [TargetsUnlock, TimerElapsed (elapsed env)] @
       (if elapsed env <s scast (m_interval st)
        then [MSleep (ucast (scast (m_interval st) - elapsed env))] else [])
     \<and> map snd (sent probes) = map hostAddress (m_targets st @ arrivals env)
     \<and> slept probes = [] \<and> measured probes = []
     \<and> TimerRestart \<notin> set probes \<and> TargetsLock \<notin> set probes \<and> TargetsUnlock \<notin> set probes"
proof -
  let ?st2 = "emit [TimerRestart, TargetsLock]
      (st\<lparr>m_targets := m_targets st @ arrivals env\<rparr>)"
  let ?T = "m_targets st @ arrivals env"
  let ?st3 = "transmitTargets pingPacket n (otherAllocations env) (sendtoResult env) 0 ?T ?st2"
  obtain probes where probes: "calls ?st3 = calls ?st2 @ probes"
    and outside: "TimerRestart \<notin> set probes \<and> TargetsLock \<notin> set probes
                  \<and> TargetsUnlock \<notin> set probes"
    using transmitTargets_probes by blast
  have "sent (calls ?st3) = sent (calls ?st2) @ sent probes"
    by (simp only: probes sent_append)
  then have "sent probes =
      map (\<lambda>k. (pingPacket (target_id (?T ! k))
                  (sequenceIdAt (otherAllocations env) 0 (m_sequenceId ?st2) k) 52
                  (hostAddress (?T ! k)) (version (m_engine ?st2)),
                hostAddress (?T ! k)))
         [0..<length ?T]"
    by (simp only: transmitTargets_sent same_append_eq)
  then have "map snd (sent probes) = map (\<lambda>k. hostAddress (?T ! k)) [0..<length ?T]"
    by (simp add: comp_def)
  also have "\<dots> = map hostAddress ?T"
    by (simp only: map_nth map_map [symmetric, of hostAddress "(!) ?T", unfolded comp_def])
  finally have hosts: "map snd (sent probes) = map hostAddress ?T" .
  have "slept (calls ?st3) = slept (calls ?st2) @ slept probes"
    by (simp only: probes slept_append)
  then have nosleep: "slept probes = []"
    by (simp add: transmitTargets_frame)
  have "measured (calls ?st3) = measured (calls ?st2) @ measured probes"
    by (simp only: probes measured_append)
  then have noread: "measured probes = []"
    by (simp add: transmitTargets_frame)
  have "calls (transmitRound pingPacket env n st) =
       calls st @ [TimerRestart, TargetsLock] @ probes @
       [TargetsUnlock, TimerElapsed (elapsed env)] @
       (if elapsed env <s scast (m_interval st)
        then [MSleep (ucast (scast (m_interval st) - elapsed env))] else [])"
    using probes
    by (simp add: transmitRound_def Let_def foldl_addTarget sleepRemainder_calls emit_fields
          transmitTargets_frame)
  then show ?thesis
    using hosts nosleep noread outside by blast
qed

lemma transmitRound_extends:
  "\<exists>cs. calls (transmitRound pingPacket env n st) = calls st @ cs"
  using transmitRound_calls [of pingPacket env n st] by blast

lemma doWork_loop_extends:
  "\<exists>cs. calls (state_of (doWork_loop pingPacket es n st)) = calls st @ cs"
proof (induction es arbitrary: n st)
  case Nil
  show ?case by simp
next
  case (Cons e es)
  obtain cs1 where c1: "calls (transmitRound pingPacket e n st) = calls st @ cs1"
    using transmitRound_extends by blast
  obtain cs2 where "calls (state_of (doWork_loop pingPacket es (n + 1)
      (transmitRound pingPacket e n st))) = calls (transmitRound pingPacket e n st) @ cs2"
    using Cons.IH by blast
  then show ?case
    by (simp add: c1)
qed

subsection \<open>Sequence numbers along a run\<close>





























text \<open>
  With the default interval of ten seconds the rounds of \<open>shared_run\<close> are ten
  seconds apart: at its end, with a timeout of 15 seconds and no reply, only the request
  of the last round is in flight.
\<close>

lemma in_flight_drops_old_requests:
  "duration (calls shared_run) = 30003
   \<and> sendTimes 0 (calls shared_run) = [0, 10001, 20002]
   \<and> map item_sequenceId (in_flight 15000 (\<lambda>pingItem. False) (calls shared_run)) = [7]
   \<and> map item_sequenceId (in_flight 15000 (\<lambda>pingItem. item_sequenceId pingItem = 7)
                             (calls shared_run)) = []"
proof -
  have cs: "calls shared_run =
      [SetEpoch 1000,
       TimerRestart, TargetsLock, OtherAllocations 0, SequenceLock, SequenceUnlock,
       AddRequest \<lparr>item_target = example_target, item_id = 7, item_sequenceId = 1,
                   item_sampleNumber = 0\<rparr>,
       PingPacket 7 1 52 ''192.0.2.1'' V4, Sendto (replicate 52 0) ''192.0.2.1'',
       StartTimer \<lparr>item_target = example_target, item_id = 7, item_sequenceId = 1,
                   item_sampleNumber = 0\<rparr>,
       TargetsUnlock, TimerElapsed 20, MSleep 9980,
       TimerRestart, TargetsLock, OtherAllocations 2, SequenceLock, SequenceUnlock,
       AddRequest \<lparr>item_target = example_target, item_id = 7, item_sequenceId = 4,
                   item_sampleNumber = 1\<rparr>,
       PingPacket 7 4 52 ''192.0.2.1'' V4, Sendto (replicate 52 0) ''192.0.2.1'',
       StartTimer \<lparr>item_target = example_target, item_id = 7, item_sequenceId = 4,
                   item_sampleNumber = 1\<rparr>,
       TargetsUnlock, TimerElapsed 20, MSleep 9980,
       TimerRestart, TargetsLock, OtherAllocations 2, SequenceLock, SequenceUnlock,
       AddRequest \<lparr>item_target = example_target, item_id = 7, item_sequenceId = 7,
                   item_sampleNumber = 2\<rparr>,
       PingPacket 7 7 52 ''192.0.2.1'' V4, Sendto (replicate 52 0) ''192.0.2.1'',
       StartTimer \<lparr>item_target = example_target, item_id = 7, item_sequenceId = 7,
                   item_sampleNumber = 2\<rparr>,
       TargetsUnlock, TimerElapsed 20, MSleep 9980]"
    using other_allocations_counter [of 2]
    by (simp add: shared_run_def shared_env_def example_env_def example_state_def
        addTarget_def ICMPPingTransmitter_def DefaultTransmitInterval_def doWork_def Let_def
        emit_def transmitRound_def transmitTarget_def otherTransmitters_def
        sleepRemainder_def allocSequenceId_def example_pingPacket_def example_target_def
        example_engine_def version_def setEpoch_def word_sless_alt)
  show ?thesis
    by (simp add: cs duration_def in_flight_def registered_def)
qed


subsection \<open>The interleaving around the target list\<close>

lemma registry_inv_start: "registry_inv (start_system st)"
  by (simp add: registry_inv_def start_system_def)

lemma registry_inv_step:
  assumes "registry_inv s" and "step pingPacket a s = Some s'"
  shows "registry_inv s'"
proof (cases a)
  case TxLock
  then show ?thesis
    using assms
    by (auto simp: registry_inv_def emit_fields split: if_splits tx_pc.splits)
next
  case (TxProbe r)
  then show ?thesis
    using assms
    by (auto simp: registry_inv_def transmitTarget_frame take_Suc_conv_app_nth
          split: if_splits tx_pc.splits)
next
  case (TxUnlock el)
  then show ?thesis
    using assms
    by (auto simp: registry_inv_def split: if_splits tx_pc.splits)
next
  case (AddLock c t)
  then show ?thesis
    using assms
    by (auto simp: registry_inv_def split: if_splits tx_pc.splits)
next
  case (AddAppend c)
  obtain t where pc: "caller_pc s c = Locked t"
    and s': "s' = s\<lparr>this := addTarget t (this s), caller_pc := (caller_pc s)(c := Appended)\<rparr>"
    using assms(2) AddAppend by (auto split: caller_pc.splits)
  have callers: "\<forall>c'. (caller_pc s c' = Idle) = (targetsMutex s \<noteq> Some (Caller c'))"
    using assms(1) by (simp add: registry_inv_def)
  then have own: "targetsMutex s = Some (Caller c)"
    using pc by (metis caller_pc.distinct(1))
  then have out: "transmitter_pc s = Outside"
    using assms(1) by (auto simp: registry_inv_def split: tx_pc.splits)
  show ?thesis
    using callers own out by (simp add: registry_inv_def s')
next
  case (AddUnlock c)
  have pc: "caller_pc s c = Appended"
    and s': "s' = s\<lparr>targetsMutex := None, caller_pc := (caller_pc s)(c := Idle)\<rparr>"
    using assms(2) AddUnlock by (auto split: caller_pc.splits)
  have callers: "\<forall>c'. (caller_pc s c' = Idle) = (targetsMutex s \<noteq> Some (Caller c'))"
    using assms(1) by (simp add: registry_inv_def)
  then have own: "targetsMutex s = Some (Caller c)"
    using pc by (metis caller_pc.distinct(3))
  then have out: "transmitter_pc s = Outside"
    using assms(1) by (auto simp: registry_inv_def split: tx_pc.splits)
  show ?thesis
    using callers own out by (auto simp: registry_inv_def s')
qed

lemma registry_inv_run:
  "registry_inv s \<Longrightarrow> run pingPacket as s = Some s' \<Longrightarrow> registry_inv s'"
proof (induction as arbitrary: s)
  case Nil
  then show ?case by simp
next
  case (Cons a as)
  then show ?case
    by (auto split: option.splits dest: registry_inv_step)
qed

lemma step_changes_targets:
  assumes "step pingPacket a s = Some s'" and "m_targets (this s') \<noteq> m_targets (this s)"
  shows "\<exists>c t. a = AddAppend c \<and> caller_pc s c = Locked t"
proof (cases a)
  case TxLock
  then show ?thesis
    using assms by (auto simp: emit_fields split: if_splits)
next
  case (TxProbe r)
  then show ?thesis
    using assms by (auto simp: transmitTarget_frame split: if_splits tx_pc.splits)
next
  case (TxUnlock el)
  then show ?thesis
    using assms by (auto simp: sleepRemainder_fields emit_fields split: if_splits tx_pc.splits)
next
  case (AddLock c t)
  then show ?thesis
    using assms by (auto split: if_splits)
next
  case (AddAppend c)
  then show ?thesis
    using assms by (auto split: caller_pc.splits)
next
  case (AddUnlock c)
  then show ?thesis
    using assms by (auto split: caller_pc.splits)
qed

lemma registry_inv_owner:
  assumes "registry_inv s" and "caller_pc s c = Locked t"
  shows "targetsMutex s = Some (Caller c)"
proof -
  have "\<forall>c'. (caller_pc s c' = Idle) = (targetsMutex s \<noteq> Some (Caller c'))"
    using assms(1) by (simp add: registry_inv_def)
  then show ?thesis
    using assms(2) by (metis caller_pc.distinct(1))
qed

lemma registry_inv_iterating:
  assumes "registry_inv s" and "transmitter_pc s = Iterating i"
  shows "targetsMutex s = Some Transmitter" and "i \<le> length (m_targets (this s))"
    and "m_targets (this s) = lockedTargets s" and "probed s = take i (lockedTargets s)"
  using assms by (auto simp: registry_inv_def)

subsection \<open>The interleaving around the sequence counter\<close>






section \<open>The sequence counter\<close>




text \<open>
  C2, as stated: when the counter holds 65535 the next sequence number allocated is the
  value the counter was initialised with. It is not: the number allocated after 65535
  is 0, and the counter was initialised with 1.
\<close>

theorem sequence_after_65535_is_not_initial:
  "fst (allocSequenceId (snd (allocSequenceId 65535))) \<noteq> initial_sequenceId"
  by (simp add: allocSequenceId_def initial_sequenceId_def)

text \<open>
  C2, amended. When the counter holds 65535, the allocation returns 65535 and leaves the
  counter at 0: the counter is a \<^verbatim>\<open>uint16_t\<close> that is incremented modulo 65536, and
  nothing resets it to its initial value 1. Two targets probed one after the other from
  a counter at 65535 are registered with the sequence numbers 65535 and 0.
\<close>

theorem sequence_counter_wraps_to_zero:
  "allocSequenceId 65535 = (65535, 0)
   \<and> unat (snd (allocSequenceId s)) = (unat s + 1) mod 65536
   \<and> map item_sequenceId
       (registered (calls (transmitTarget pingPacket n2 r2 t2
          (transmitTarget pingPacket n1 r1 t1 (st\<lparr>m_sequenceId := 65535, calls := []\<rparr>)))))
       = [65535, 0]"
  by (simp add: allocSequenceId_def unat_word_ariths transmitTarget_registered
        transmitTarget_frame) (simp add: registered_def)

section \<open>The steps for one target\<close>

text \<open>
  C4, as stated: the item is registered with the engine after the packet was sent. On
  the concrete transmitter the call of \<^verbatim>\<open>addRequest\<close> is at position 2 and the call
  of \<^verbatim>\<open>sendto\<close> at position 4.
\<close>

theorem request_registered_before_send:
  "calls (transmitTarget example_pingPacket 0 52 example_target (example_state 1)) =
     [SequenceLock, SequenceUnlock,
      AddRequest \<lparr>item_target = example_target, item_id = 7, item_sequenceId = 1,
                  item_sampleNumber = 0\<rparr>,
      PingPacket 7 1 52 ''192.0.2.1'' V4,
      Sendto (replicate 52 0) ''192.0.2.1'',
      StartTimer \<lparr>item_target = example_target, item_id = 7, item_sequenceId = 1,
                  item_sampleNumber = 0\<rparr>]
   \<and> first_index isAddRequest
        (calls (transmitTarget example_pingPacket 0 52 example_target (example_state 1))) = 2
   \<and> first_index isSendto
        (calls (transmitTarget example_pingPacket 0 52 example_target (example_state 1))) = 4
   \<and> \<not> first_index isSendto
          (calls (transmitTarget example_pingPacket 0 52 example_target (example_state 1)))
        < first_index isAddRequest
          (calls (transmitTarget example_pingPacket 0 52 example_target (example_state 1)))"
  by (simp add: transmitTarget_calls first_index_def example_state_def addTarget_def
        ICMPPingTransmitter_def example_target_def example_engine_def version_def
        example_pingPacket_def)

text \<open>
  C4, amended. For each target the transmitter, in this order: takes the sequence
  mutex, allocates the sequence number and releases the mutex; fills the ping item and
  registers it with the engine (\<^verbatim>\<open>addRequest\<close>); builds the packet; sends it; starts
  the item's timer; and logs an error when \<^verbatim>\<open>sendto\<close> did not return the length of
  the packet. Registration comes before the send, the start of the timer after it.
\<close>

theorem transmit_steps_in_order:
  "calls (transmitTarget pingPacket sampleNumber result target st) =
     calls st @
     [SequenceLock, SequenceUnlock,
      AddRequest \<lparr>item_target = target, item_id = target_id target,
                  item_sequenceId = fst (allocSequenceId (m_sequenceId st)),
                  item_sampleNumber = sampleNumber\<rparr>,
      PingPacket (target_id target) (fst (allocSequenceId (m_sequenceId st))) 52
        (hostAddress target) (version (m_engine st)),
      Sendto (pingPacket (target_id target) (fst (allocSequenceId (m_sequenceId st))) 52
                (hostAddress target) (version (m_engine st)))
             (hostAddress target),
      StartTimer \<lparr>item_target = target, item_id = target_id target,
                  item_sequenceId = fst (allocSequenceId (m_sequenceId st)),
                  item_sampleNumber = sampleNumber\<rparr>] @
     (if result \<noteq> int (length (pingPacket (target_id target)
                                   (fst (allocSequenceId (m_sequenceId st))) 52
                                   (hostAddress target) (version (m_engine st))))
      then [LogError (hostAddress target)] else [])
   \<and> m_sequenceId (transmitTarget pingPacket sampleNumber result target st) =
       snd (allocSequenceId (m_sequenceId st))"
  by (simp add: transmitTarget_calls transmitTarget_frame allocSequenceId_def)

section \<open>The rounds of the loop\<close>

text \<open>
  The theorems of this section are about the round that the loop executes after the
  rounds \<open>es\<close>, none of which ended with a request to stop: the state before it is
  \<open>state_of (doWork pingPacket now es st)\<close>, the state after it is
  \<open>state_of (doWork pingPacket now (es @ [env]) st)\<close>.
\<close>

text \<open>
  C3. In every iteration the calls are, in this order: the restart of the elapsed
  timer, the lock of the target list, the calls for the targets, among them one
  \<^verbatim>\<open>sendto\<close> for every target of the list and neither a sleep nor a restart or a
  reading of the timer, the unlock, the reading of the elapsed timer, which so measures
  the time since the restart at the start of this iteration, and then, as the last call
  of the iteration, \<^verbatim>\<open>msleep\<close> with \<open>interval - elapsed\<close> milliseconds when
  \<open>elapsed < interval\<close>, and no call of \<^verbatim>\<open>msleep\<close> at all otherwise: the time slept in
  the iteration is \<open>max 0 (interval - elapsed)\<close>. The reading of the elapsed timer is
  not negative.
\<close>

theorem sleep_is_interval_minus_elapsed_or_none:
  assumes "\<forall>e\<in>set es. \<not> stopRequested e" and "0 \<le> sint (elapsed env)"
  shows "map unat (slept (calls (state_of (doWork pingPacket now (es @ [env]) st)))) =
           map unat (slept (calls (state_of (doWork pingPacket now es st)))) @
           (if sint (elapsed env) < sint (m_interval st)
            then [nat (sint (m_interval st) - sint (elapsed env))] else [])
         \<and> int (sum_list (map unat (slept (calls (state_of (doWork pingPacket now (es @ [env]) st))))))
           = int (sum_list (map unat (slept (calls (state_of (doWork pingPacket now es st))))))
             + max 0 (sint (m_interval st) - sint (elapsed env))
         \<and> (\<exists>probes.
              calls (state_of (doWork pingPacket now (es @ [env]) st)) =
                calls (state_of (doWork pingPacket now es st)) @
                [TimerRestart, TargetsLock] @ probes @
                [TargetsUnlock, TimerElapsed (elapsed env)] @
                (if sint (elapsed env) < sint (m_interval st)
                 then [MSleep (of_nat (nat (sint (m_interval st) - sint (elapsed env))))]
                 else [])
              \<and> map snd (sent probes) =
                  map hostAddress (m_targets st @ concat (map arrivals (es @ [env])))
              \<and> slept probes = [] \<and> measured probes = [] \<and> TimerRestart \<notin> set probes)"
proof -
  let ?S = "state_of (doWork pingPacket now es st)"
  have step: "slept (calls (state_of (doWork pingPacket now (es @ [env]) st))) =
      slept (calls ?S) @
      (if sint (elapsed env) < sint (m_interval st)
       then [ucast (scast (m_interval st) - elapsed env)] else [])"
    by (simp add: doWork_snoc(1) [OF assms(1)] transmitRound_slept doWork_fields sless_interval)
  have amount: "(ucast ((scast (m_interval st) :: qint64) - elapsed env) :: ulong) =
      of_nat (nat (sint (m_interval st) - sint (elapsed env)))"
    if "sint (elapsed env) < sint (m_interval st)"
  proof -
    let ?w = "ucast ((scast (m_interval st) :: qint64) - elapsed env) :: ulong"
    have "?w = of_nat (unat ?w)"
      by (simp only: of_nat_unat ucast_id)
    then show ?thesis
      by (simp only: unat_sleep_amount [OF assms(2) that])
  qed
  obtain probes where
    "calls (transmitRound pingPacket env (of_nat (length es)) ?S) =
       calls ?S @ [TimerRestart, TargetsLock] @ probes @
       [TargetsUnlock, TimerElapsed (elapsed env)] @
       (if elapsed env <s scast (m_interval ?S)
        then [MSleep (ucast (scast (m_interval ?S) - elapsed env))] else [])"
    and hosts: "map snd (sent probes) = map hostAddress (m_targets ?S @ arrivals env)"
    and quiet: "slept probes = []" "measured probes = []" "TimerRestart \<notin> set probes"
    using transmitRound_calls [of pingPacket env "of_nat (length es)" ?S] by blast
  then have order: "calls (state_of (doWork pingPacket now (es @ [env]) st)) =
       calls ?S @ [TimerRestart, TargetsLock] @ probes @
       [TargetsUnlock, TimerElapsed (elapsed env)] @
       (if sint (elapsed env) < sint (m_interval st)
        then [MSleep (of_nat (nat (sint (m_interval st) - sint (elapsed env))))] else [])"
    using amount
    by (simp add: doWork_snoc(1) [OF assms(1)] doWork_fields sless_interval)
  have hosts': "map snd (sent probes) =
      map hostAddress (m_targets st @ concat (map arrivals (es @ [env])))"
    using hosts by (simp add: doWork_targets [OF assms(1)])
  have third: "\<exists>probes.
              calls (state_of (doWork pingPacket now (es @ [env]) st)) =
                calls ?S @
                [TimerRestart, TargetsLock] @ probes @
                [TargetsUnlock, TimerElapsed (elapsed env)] @
                (if sint (elapsed env) < sint (m_interval st)
                 then [MSleep (of_nat (nat (sint (m_interval st) - sint (elapsed env))))]
                 else [])
              \<and> map snd (sent probes) =
                  map hostAddress (m_targets st @ concat (map arrivals (es @ [env])))
              \<and> slept probes = [] \<and> measured probes = [] \<and> TimerRestart \<notin> set probes"
    using order hosts' quiet by blast
  have first: "map unat (slept (calls (state_of (doWork pingPacket now (es @ [env]) st)))) =
           map unat (slept (calls ?S)) @
           (if sint (elapsed env) < sint (m_interval st)
            then [nat (sint (m_interval st) - sint (elapsed env))] else [])
         \<and> int (sum_list (map unat (slept (calls (state_of (doWork pingPacket now (es @ [env]) st))))))
           = int (sum_list (map unat (slept (calls ?S))))
             + max 0 (sint (m_interval st) - sint (elapsed env))"
  proof (cases "sint (elapsed env) < sint (m_interval st)")
    case True
    then show ?thesis
      using unat_sleep_amount [OF assms(2) True] by (simp add: step)
  next
    case False
    then show ?thesis by (simp add: step)
  qed
  show ?thesis
    using first third by (intro conjI) blast+
qed

theorem sleep_is_interval_minus_elapsed_or_none_witness:
  "map unat (slept (calls (state_of (doWork example_pingPacket 1000
      [example_env 52 20, example_env 52 12000] (example_state 1))))) =
   map unat (slept (calls (state_of (doWork example_pingPacket 1000
      [example_env 52 20] (example_state 1)))))
   \<and> map unat (slept (calls (state_of (doWork example_pingPacket 1000
      [example_env 52 20] (example_state 1))))) = [9980]
   \<and> calls (state_of (doWork example_pingPacket 1000 [example_env 52 20] (example_state 1))) =
       [SetEpoch 1000, TimerRestart, TargetsLock, OtherAllocations 0,
        SequenceLock, SequenceUnlock,
        AddRequest \<lparr>item_target = example_target, item_id = 7, item_sequenceId = 1,
                    item_sampleNumber = 0\<rparr>,
        PingPacket 7 1 52 ''192.0.2.1'' V4,
        Sendto (replicate 52 0) ''192.0.2.1'',
        StartTimer \<lparr>item_target = example_target, item_id = 7, item_sequenceId = 1,
                    item_sampleNumber = 0\<rparr>,
        TargetsUnlock, TimerElapsed 20, MSleep 9980]"
proof -
  have order: "calls (state_of (doWork example_pingPacket 1000 [example_env 52 20]
                               (example_state 1))) =
       [SetEpoch 1000, TimerRestart, TargetsLock, OtherAllocations 0,
        SequenceLock, SequenceUnlock,
        AddRequest \<lparr>item_target = example_target, item_id = 7, item_sequenceId = 1,
                    item_sampleNumber = 0\<rparr>,
        PingPacket 7 1 52 ''192.0.2.1'' V4,
        Sendto (replicate 52 0) ''192.0.2.1'',
        StartTimer \<lparr>item_target = example_target, item_id = 7, item_sequenceId = 1,
                    item_sampleNumber = 0\<rparr>,
        TargetsUnlock, TimerElapsed 20, MSleep 9980]"
    by (simp add: example_env_def example_state_def addTarget_def ICMPPingTransmitter_def
        DefaultTransmitInterval_def doWork_def Let_def emit_def transmitRound_def
        transmitTarget_def otherTransmitters_def sleepRemainder_def allocSequenceId_def
        example_pingPacket_def example_target_def example_engine_def version_def
        setEpoch_def word_sless_alt)
  show ?thesis
    using sleep_is_interval_minus_elapsed_or_none [where es = "[example_env 52 20]" and env = "example_env 52 12000"
      and pingPacket = example_pingPacket and now = 1000 and st = "example_state 1"]
    sleep_is_interval_minus_elapsed_or_none [where es = "[]" and env = "example_env 52 20"
      and pingPacket = example_pingPacket and now = 1000 and st = "example_state 1"]
    order
    by (simp add: example_env_def example_state_def addTarget_def ICMPPingTransmitter_def
        DefaultTransmitInterval_def slept_def)
qed

text \<open>
  C5. The sample counter starts at 0 and is incremented once per round, after all
  targets of the round were probed: no item is registered before the first round, and
  the round executed after \<open>length es\<close> earlier rounds registers one item per target,
  each with the sample number \<open>length es\<close>.
\<close>

theorem sample_number_per_round:
  assumes "\<forall>e\<in>set es. \<not> stopRequested e"
  shows "registered (calls (state_of (doWork pingPacket now [] st))) = registered (calls st)
       \<and> map item_sampleNumber
           (registered (calls (state_of (doWork pingPacket now (es @ [env]) st)))) =
         map item_sampleNumber (registered (calls (state_of (doWork pingPacket now es st)))) @
         replicate (length (m_targets st @ concat (map arrivals (es @ [env]))))
           (of_nat (length es))"
proof -
  have "registered (calls (state_of (doWork pingPacket now [] st))) = registered (calls st)"
    by (simp add: doWork_def Let_def emit_fields proj_append) (simp add: registered_def)
  moreover have "map item_sampleNumber
           (registered (calls (state_of (doWork pingPacket now (es @ [env]) st)))) =
         map item_sampleNumber (registered (calls (state_of (doWork pingPacket now es st)))) @
         replicate (length (m_targets st @ concat (map arrivals (es @ [env]))))
           (of_nat (length es))"
    by (simp add: doWork_snoc(1) [OF assms] transmitRound_registered doWork_targets [OF assms]
          comp_def map_replicate_const)
  ultimately show ?thesis by simp
qed

theorem sample_number_per_round_witness:
  "map item_sampleNumber (registered (calls (state_of (doWork example_pingPacket 1000
      [example_env 52 20, example_env 52 20, example_env 52 20] (example_state 1)))))
   = [0, 1, 2]"
  using sample_number_per_round [where es = "[example_env 52 20, example_env 52 20]" and env = "example_env 52 20"
      and pingPacket = example_pingPacket and now = 1000 and st = "example_state 1"]
    sample_number_per_round [where es = "[example_env 52 20]" and env = "example_env 52 20"
      and pingPacket = example_pingPacket and now = 1000 and st = "example_state 1"]
    sample_number_per_round [where es = "[]" and env = "example_env 52 20"
      and pingPacket = example_pingPacket and now = 1000 and st = "example_state 1"]
  by (simp add: example_env_def example_state_def addTarget_def ICMPPingTransmitter_def registered_def)

text \<open>
  C6. Whatever \<^verbatim>\<open>sendto\<close> returns, a round sends one packet to every target of the
  list, in order; every position at which \<^verbatim>\<open>sendto\<close> did not return the length of the
  packet is logged; and the loop goes on after the round unless a stop was requested:
  a failed send ends neither the round nor the loop.
\<close>

theorem send_failure_logged_and_round_continues:
  assumes "\<forall>e\<in>set es. \<not> stopRequested e"
  shows "map snd (sent (calls (state_of (doWork pingPacket now (es @ [env]) st)))) =
           map snd (sent (calls (state_of (doWork pingPacket now es st)))) @
           map hostAddress (m_targets st @ concat (map arrivals (es @ [env])))
       \<and> errors (calls (state_of (doWork pingPacket now (es @ [env]) st))) =
           errors (calls (state_of (doWork pingPacket now es st))) @
           map (\<lambda>k. hostAddress ((m_targets st @ concat (map arrivals (es @ [env]))) ! k))
             (filter
                (\<lambda>k. sendtoResult env k \<noteq>
                   int (length (fst (sent (calls (state_of (doWork pingPacket now (es @ [env]) st)))
                        ! (length (sent (calls (state_of (doWork pingPacket now es st)))) + k)))))
                [0..<length (m_targets st @ concat (map arrivals (es @ [env])))])
       \<and> returned (doWork pingPacket now (es @ [env]) st) = stopRequested env"
proof -
  let ?S = "state_of (doWork pingPacket now es st)"
  let ?T = "m_targets st @ concat (map arrivals (es @ [env]))"
  have T: "m_targets ?S @ arrivals env = ?T"
    by (simp add: doWork_targets [OF assms])
  have sent': "sent (calls (state_of (doWork pingPacket now (es @ [env]) st))) =
     sent (calls ?S) @
     map (\<lambda>k. (pingPacket (target_id (?T ! k))
                  (sequenceIdAt (otherAllocations env) 0 (m_sequenceId ?S) k) 52
                  (hostAddress (?T ! k)) (version (m_engine ?S)),
                hostAddress (?T ! k)))
         [0..<length ?T]"
    by (simp only: doWork_snoc(1) [OF assms] transmitRound_sent T)
  have hosts: "map (\<lambda>k. hostAddress (?T ! k)) [0..<length ?T] = map hostAddress ?T"
    by (simp only: map_nth map_map [symmetric, of hostAddress "(!) ?T", unfolded comp_def])
  have c1: "map snd (sent (calls (state_of (doWork pingPacket now (es @ [env]) st)))) =
           map snd (sent (calls ?S)) @ map hostAddress ?T"
    using hosts by (simp add: sent' comp_def)
  have c2: "errors (calls (state_of (doWork pingPacket now (es @ [env]) st))) =
           errors (calls ?S) @
           map (\<lambda>k. hostAddress (?T ! k))
             (filter
                (\<lambda>k. sendtoResult env k \<noteq>
                   int (length (fst (sent (calls (state_of (doWork pingPacket now (es @ [env]) st)))
                        ! (length (sent (calls ?S)) + k)))))
                [0..<length ?T])"
    apply (simp only: doWork_snoc(1) [OF assms] transmitRound_errors transmitRound_sent T)
    apply (rule arg_cong [where f = "\<lambda>x. errors (calls ?S) @ x"])
    apply (rule arg_cong [where f = "map (\<lambda>k. hostAddress (?T ! k))"])
    apply (rule filter_cong [OF refl])
    apply (simp add: nth_append)
    done
  show ?thesis
    using c1 c2 doWork_snoc(2) [OF assms] by simp
qed

theorem send_failure_logged_and_round_continues_witness:
  "map snd (sent (calls (state_of (doWork example_pingPacket 1000
      [example_env (- 1) 20, example_env 52 20] (example_state 1)))))
     = [''192.0.2.1'', ''192.0.2.1'']
   \<and> errors (calls (state_of (doWork example_pingPacket 1000
      [example_env (- 1) 20] (example_state 1)))) = [''192.0.2.1'']
   \<and> \<not> returned (doWork example_pingPacket 1000 [example_env (- 1) 20] (example_state 1))"
  using send_failure_logged_and_round_continues [where es = "[example_env (- 1) 20]" and env = "example_env 52 20"
      and pingPacket = example_pingPacket and now = 1000 and st = "example_state 1"]
    send_failure_logged_and_round_continues [where es = "[]" and env = "example_env (- 1) 20"
      and pingPacket = example_pingPacket and now = 1000 and st = "example_state 1"]
  by (simp add: example_env_def example_state_def addTarget_def ICMPPingTransmitter_def
        example_target_def sent_def errors_def doWork_def Let_def emit_def)

section \<open>The target list and its mutex\<close>

text \<open>
  C7. In every state that the threads can reach by interleaving their steps: the only
  step that changes the target list is the append of \<^verbatim>\<open>addTarget\<close>, taken by a caller
  that holds the mutex; while the transmitter iterates over the targets it holds the
  mutex, the list is the one it found when it took the mutex, and the targets probed so
  far are the first ones of that list; no step of any thread changes the list during the
  iteration; and when the transmitter releases the mutex it has probed exactly the list
  it locked. There is no step that removes a target: the class has none.
\<close>

theorem registry_changes_only_under_lock:
  assumes "run pingPacket as (start_system st) = Some s"
  shows "(\<forall>a s'. step pingPacket a s = Some s' \<longrightarrow> m_targets (this s') \<noteq> m_targets (this s) \<longrightarrow>
            (\<exists>c. a = AddAppend c \<and> targetsMutex s = Some (Caller c)))
       \<and> (\<forall>i. transmitter_pc s = Iterating i \<longrightarrow>
            targetsMutex s = Some Transmitter \<and> m_targets (this s) = lockedTargets s
            \<and> probed s = take i (lockedTargets s))
       \<and> (\<forall>i a s'. transmitter_pc s = Iterating i \<longrightarrow> step pingPacket a s = Some s' \<longrightarrow>
            m_targets (this s') = m_targets (this s))
       \<and> (\<forall>i elapsedTime s'. transmitter_pc s = Iterating i \<longrightarrow>
            step pingPacket (TxUnlock elapsedTime) s = Some s' \<longrightarrow>
            probed s' = lockedTargets s' \<and> m_targets (this s') = lockedTargets s')"
proof -
  have inv: "registry_inv s"
    using registry_inv_run [OF registry_inv_start assms] .
  have only: "\<exists>c. a = AddAppend c \<and> targetsMutex s = Some (Caller c)"
    if "step pingPacket a s = Some s'" "m_targets (this s') \<noteq> m_targets (this s)" for a s'
    using step_changes_targets [OF that] registry_inv_owner [OF inv] by blast
  have round: "m_targets (this s') = m_targets (this s)"
    if pc: "transmitter_pc s = Iterating i" and st: "step pingPacket a s = Some s'" for i a s'
  proof (rule ccontr)
    assume "m_targets (this s') \<noteq> m_targets (this s)"
    then obtain c where "targetsMutex s = Some (Caller c)"
      using only [OF st] by blast
    then show False
      using registry_inv_iterating(1) [OF inv pc] by simp
  qed
  have finished: "probed s' = lockedTargets s' \<and> m_targets (this s') = lockedTargets s'"
    if "transmitter_pc s = Iterating i" "step pingPacket (TxUnlock elapsedTime) s = Some s'"
    for i elapsedTime s'
    using that registry_inv_iterating(2,3,4) [OF inv that(1)]
    by (auto simp: sleepRemainder_fields emit_fields split: if_splits)
  show ?thesis
    using only round finished registry_inv_iterating(1,3,4) [OF inv] by blast
qed

theorem registry_changes_only_under_lock_witness:
  "run example_pingPacket [TxLock, TxProbe 52] (start_system (example_state 1))
     = Some round_in_progress
   \<and> transmitter_pc round_in_progress = Iterating 1
   \<and> targetsMutex round_in_progress = Some Transmitter
   \<and> m_targets (this round_in_progress) = [example_target]
   \<and> probed round_in_progress = [example_target]
   \<and> step example_pingPacket (AddLock 0 example_target) round_in_progress = None"
proof -
  have r: "run example_pingPacket [TxLock, TxProbe 52] (start_system (example_state 1))
     = Some round_in_progress"
    by (simp add: round_in_progress_def start_system_def example_state_def addTarget_def
          ICMPPingTransmitter_def emit_def)
  have pc: "transmitter_pc round_in_progress = Iterating 1"
    by (simp add: round_in_progress_def start_system_def example_state_def addTarget_def
          ICMPPingTransmitter_def emit_def)
  have lk: "lockedTargets round_in_progress = [example_target]"
    by (simp add: round_in_progress_def start_system_def example_state_def addTarget_def
          ICMPPingTransmitter_def emit_def)
  show ?thesis
    using registry_changes_only_under_lock [OF r] pc lk r by simp
qed

section \<open>The epoch\<close>

text \<open>
  C9. The first thing \<^verbatim>\<open>doWork\<close> does to its collaborators is to set the engine's
  epoch to the current time; it does so once, no packet is sent before, and afterwards
  \<open>epoch\<close> returns that time.
\<close>

theorem epoch_set_once_before_first_send:
  "take (Suc (length (calls st))) (calls (state_of (doWork pingPacket now envs st))) =
     calls st @ [SetEpoch now]
   \<and> epochs (calls (state_of (doWork pingPacket now envs st))) = epochs (calls st) @ [now]
   \<and> sent (take (Suc (length (calls st))) (calls (state_of (doWork pingPacket now envs st))))
       = sent (calls st)
   \<and> epoch (m_engine (state_of (doWork pingPacket now envs st))) = now"
proof -
  let ?st2 = "emit [SetEpoch now] (st\<lparr>m_isRunning := True, m_engine := setEpoch now (m_engine st)\<rparr>)"
  obtain cs where "calls (state_of (doWork_loop pingPacket envs 0 ?st2)) = calls ?st2 @ cs"
    using doWork_loop_extends by blast
  then have pre: "take (Suc (length (calls st))) (calls (state_of (doWork pingPacket now envs st))) =
     calls st @ [SetEpoch now]"
    by (simp add: doWork_def Let_def emit_fields)
  have "sent (calls st @ [SetEpoch now]) = sent (calls st)"
    by (simp add: sent_def)
  then show ?thesis
    using pre by (simp add: doWork_fields epoch_def setEpoch_def)
qed

theorem epoch_set_once_before_first_send_witness:
  "take 1 (calls (state_of (doWork example_pingPacket 1000
      [example_env 52 20, example_env 52 20] (example_state 1)))) = [SetEpoch 1000]
   \<and> epochs (calls (state_of (doWork example_pingPacket 1000
      [example_env 52 20, example_env 52 20] (example_state 1)))) = [1000]
   \<and> epoch (m_engine (state_of (doWork example_pingPacket 1000
      [example_env 52 20, example_env 52 20] (example_state 1)))) = 1000"
  using epoch_set_once_before_first_send [where st = "example_state 1"
      and pingPacket = example_pingPacket and now = 1000
      and envs = "[example_env 52 20, example_env 52 20]"]
  by (simp add: example_state_def addTarget_def ICMPPingTransmitter_def epochs_def)

section \<open>The interval\<close>

text \<open>
  C8. A transmitter that has just been constructed has a transmit interval of 10000
  milliseconds, and \<open>interval\<close> returns 10000 on it.
\<close>

theorem default_interval_is_10000:
  "m_interval (ICMPPingTransmitter engine sequenceId) = 10000
   \<and> interval (ICMPPingTransmitter engine sequenceId) = 10000
   \<and> sint (interval (ICMPPingTransmitter engine sequenceId)) = 10000"
  by (simp add: ICMPPingTransmitter_def interval_def DefaultTransmitInterval_def)

text \<open>
  C10. For every \<^verbatim>\<open>int\<close> argument, negative and zero included, \<open>setInterval\<close> returns
  true and \<open>interval\<close> then returns exactly that argument.
\<close>

theorem setInterval_interval_roundtrip:
  "fst (setInterval x st) = True
   \<and> interval (snd (setInterval x st)) = x
   \<and> sint (interval (snd (setInterval x st))) = sint x"
  by (simp add: setInterval_def interval_def)

end
